theory Spec2Isabelle
  imports Main "HOL-Library.Sublist"
begin

section \<open>The voice widget of \<open>src/components/VoiceAgent.tsx\<close>\<close>

text \<open>
  The component keeps a handful of state variables and one mutable reference (the
  re-entrancy lock), talks to a provisioning endpoint with \<open>fetch\<close> and to a call SDK
  through a frame object, and reacts to the events of that frame. The embedding is a
  state record that every piece of code takes and returns. The asynchronous functions
  are cut at their \<open>await\<close>s: each piece between two suspension points is one function,
  which returns the new state and the promise the invocation now waits for. Everything
  the outside world decides (how a promise settles, which event fires, the random id and
  the clock of a transcript entry) is an argument.

  A state is what the component holds between two such pieces: the setters that one
  piece calls take effect together. The lock is a reference in the source and is read
  from the state as it is; the values \<open>startConversation\<close> reads from its closure are an
  argument of its first piece, and the running component calls the function of the
  current render.
\<close>

subsection \<open>Values of the outside world\<close>

text \<open>
  A JavaScript value as far as the response handling can tell values apart:
  \<open>Undefined\<close> is what reading a missing property gives, the others are what
  \<open>res.json()\<close> can produce. Numbers are kept as integers; only their being zero matters
  to the code.
\<close>

datatype jsval =
    Undefined
  | Null
  | Bool bool
  | Num int
  | Str string
  | Arr "jsval list"
  | Obj "(string \<times> jsval) list"

text \<open>Truthiness, as \<open>||\<close> and \<open>!\<close> see it.\<close>

fun truthy :: "jsval \<Rightarrow> bool" where
  "truthy Undefined = False"
| "truthy Null = False"
| "truthy (Bool b) = b"
| "truthy (Num n) = (n \<noteq> 0)"
| "truthy (Str s) = (s \<noteq> [])"
| "truthy (Arr _) = True"
| "truthy (Obj _) = True"

definition or_js :: "jsval \<Rightarrow> jsval \<Rightarrow> jsval" where
  "or_js a b = (if truthy a then a else b)"

text \<open>
  Reading the property \<open>k\<close> of a value that is neither \<open>null\<close> nor \<open>undefined\<close>:
  an object gives the field or \<open>undefined\<close>, and every other parsed value has no
  property of the names the code asks for. \<open>present\<close> says that an object has the key.
\<close>

definition get_field :: "jsval \<Rightarrow> string \<Rightarrow> jsval" where
  "get_field d k =
     (case d of
        Obj fs \<Rightarrow> (case map_of fs k of None \<Rightarrow> Undefined | Some v \<Rightarrow> v)
      | _ \<Rightarrow> Undefined)"

definition present :: "jsval \<Rightarrow> string \<Rightarrow> bool" where
  "present d k = (case d of Obj fs \<Rightarrow> k \<in> fst ` set fs | _ \<Rightarrow> False)"

record http_response =
  ok :: bool
  status :: nat
  statusText :: string
  body :: string
  parsed :: "jsval option"

text \<open>
  \<open>parsed\<close> is what \<open>res.json()\<close> resolves with, \<open>None\<close> when the body is not JSON.
  A \<open>fetch\<close> either rejects or resolves with a response; a promise of the SDK either
  resolves or rejects with a message.
\<close>

datatype fetch_outcome = NetworkError string | Response http_response

datatype outcome = Resolves | Rejects string

subsection \<open>Errors\<close>

text \<open>
  The source throws plain \<open>Error\<close> objects; the constructors name the three places
  where it throws itself, \<open>TypeError\<close> is the runtime's error for a property read on
  \<open>null\<close>, and \<open>External\<close> carries the message of a rejection from outside.
\<close>

datatype error =
    ConfigurationError
  | RequestError nat string string
  | ResponseShapeError
  | TypeError
  | External string

fun show_nat :: "nat \<Rightarrow> string" where
  "show_nat n =
     (if n < 10 then [char_of (48 + n)]
      else show_nat (n div 10) @ [char_of (48 + n mod 10)])"

declare show_nat.simps [simp del]

fun message :: "error \<Rightarrow> string" where
  "message ConfigurationError = ''VITE_PIPECAT_TOKEN is not configured in .env file''"
| "message (RequestError st stt txt) =
     ''API request failed: '' @ show_nat st @ '' '' @ stt @ '' - '' @ txt"
| "message ResponseShapeError = ''Missing room URL or token from API response''"
| "message TypeError = ''Cannot read properties of null''"
| "message (External m) = m"

subsection \<open>The component's state\<close>

datatype speaker = User | Ai

record TranscriptMessage =
  m_id :: string
  m_speaker :: speaker
  m_text :: string
  m_timestamp :: nat

text \<open>
  Every call that leaves the component, in the order it is made. A call of
  \<open>createFrame\<close> that returns frame \<open>f\<close> is \<open>CreateFrame f\<close>, one that throws is
  \<open>CreateFrameThrows\<close> with the message.
\<close>

datatype call =
    Fetch string string
  | Leave nat
  | Destroy nat
  | CreateFrame nat
  | CreateFrameThrows string
  | Join nat jsval jsval
  | SetLocalAudio nat bool
  | Toast string string

text \<open>The promise an invocation is suspended on, with the frame it concerns.\<close>

datatype pending =
    AwaitLeave nat
  | AwaitDestroy nat
  | AwaitFetch nat
  | AwaitJoin nat
  | AwaitEndLeave

record app =
  isOpen :: bool
  isConnected :: bool
  isConnecting :: bool
  isMuted :: bool
  transcript :: "TranscriptMessage list"
  callFrame :: "nat option"
  timer :: nat
  inputText :: string
  connectLock :: bool
  ticking :: bool
  calls :: "call list"
  console :: "error list"
  created :: nat
  timeouts :: nat
  tasks :: "pending list"

text \<open>
  \<open>connectLock\<close> is \<open>connectLockRef.current\<close>; \<open>ticking\<close> says that the interval kept in
  \<open>timerRef.current\<close> is running; \<open>calls\<close> is the trace of outside calls; \<open>console\<close>
  holds the error objects given to \<open>console.error\<close> (lines 145, 146 and 214; the
  diagnostic lines 103, 104, 137 and 201 are left out); \<open>created\<close> counts the frames
  made so far and names the next one; \<open>timeouts\<close> counts the pending mock replies;
  \<open>tasks\<close> are the suspended invocations.
\<close>

definition init :: app where
  "init = \<lparr> isOpen = False, isConnected = False, isConnecting = False, isMuted = False,
            transcript = [], callFrame = None, timer = 0, inputText = [],
            connectLock = False, ticking = False, calls = [], console = [],
            created = 0, timeouts = 0, tasks = [] \<rparr>"

text \<open>
  What the component is given: the two settings, and what the SDK's \<open>createFrame\<close>
  does when it is called, which may depend on the calls made before (\<open>Rejects\<close> with
  the message when it throws).
\<close>

record env =
  VITE_PIPECAT_ENDPOINT :: "string option"
  VITE_PIPECAT_TOKEN :: "string option"
  createFrame :: "call list \<Rightarrow> outcome"

text \<open>
  \<open>startConversation\<close> reads \<open>isConnecting\<close>, \<open>isConnected\<close> and \<open>callFrame\<close> as the render
  that made the function saw them, and the lock through its reference. \<open>render s\<close> is
  what a function made by the render of the state \<open>s\<close> holds.
\<close>

record closure =
  seen_isConnecting :: bool
  seen_isConnected :: bool
  seen_callFrame :: "nat option"

definition render :: "app \<Rightarrow> closure" where
  "render s =
     \<lparr> seen_isConnecting = isConnecting s, seen_isConnected = isConnected s,
       seen_callFrame = callFrame s \<rparr>"

subsection \<open>The transcript\<close>

text \<open>\<open>rid\<close> is the random id and \<open>now\<close> the clock reading the entry is made with.\<close>

definition addToTranscript :: "string \<Rightarrow> nat \<Rightarrow> speaker \<Rightarrow> string \<Rightarrow> app \<Rightarrow> app" where
  "addToTranscript rid now sp txt s =
     s\<lparr> transcript := transcript s @
          [\<lparr> m_id = rid, m_speaker = sp, m_text = txt, m_timestamp = now \<rparr>] \<rparr>"

subsection \<open>The credential\<close>

text \<open>
  The characters \<open>\s\<close> matches among the code units a header value can hold
  (those below 256).
\<close>

definition is_space :: "char \<Rightarrow> bool" where
  "is_space c = (c \<in> {CHR 0x09, CHR 0x0A, CHR 0x0B, CHR 0x0C, CHR 0x0D, CHR '' '', CHR 0xA0})"

text \<open>\<open>/^Bearer\s+/i\<close>: six letters in either case, then at least one space character.\<close>

fun matches_bearer :: "string \<Rightarrow> bool" where
  "matches_bearer (b # e # a # r # e' # r' # w # _) =
     (b \<in> {CHR ''B'', CHR ''b''} \<and> e \<in> {CHR ''E'', CHR ''e''} \<and>
      a \<in> {CHR ''A'', CHR ''a''} \<and> r \<in> {CHR ''R'', CHR ''r''} \<and>
      e' \<in> {CHR ''E'', CHR ''e''} \<and> r' \<in> {CHR ''R'', CHR ''r''} \<and> is_space w)"
| "matches_bearer _ = False"

definition authHeader :: "string \<Rightarrow> string" where
  "authHeader apiKey = (if matches_bearer apiKey then apiKey else ''Bearer '' @ apiKey)"

definition configured :: "env \<Rightarrow> bool" where
  "configured e = (case VITE_PIPECAT_TOKEN e of None \<Rightarrow> False | Some k \<Rightarrow> k \<noteq> [])"

definition endpoint :: "env \<Rightarrow> string" where
  "endpoint e =
     (case VITE_PIPECAT_ENDPOINT e of
        None \<Rightarrow> ''https://api.pipecat.daily.co/v1/public/webagent/start''
      | Some u \<Rightarrow> if u = [] then ''https://api.pipecat.daily.co/v1/public/webagent/start'' else u)"

subsection \<open>startConversation\<close>

definition guard :: "app \<Rightarrow> bool" where
  "guard s = (connectLock s \<or> isConnecting s \<or> isConnected s)"

text \<open>The \<open>catch\<close> block of lines 213 to 218.\<close>

definition catch_block :: "error \<Rightarrow> app \<Rightarrow> app" where
  "catch_block e s =
     s\<lparr> console := console s @ [e],
        isConnecting := False,
        connectLock := False,
        calls := calls s @
          [Toast ''Error''
             (if message e = [] then ''Could not start conversation'' else message e)] \<rparr>"

text \<open>
  Lines 151 to 196: \<open>createFrame\<close> is called inside the \<open>try\<close>. When it returns, the
  listeners are attached to the new frame and the invocation waits for the request;
  when it throws, the \<open>catch\<close> block runs.
\<close>

definition create_frame :: "env \<Rightarrow> app \<Rightarrow> app \<times> pending option" where
  "create_frame e s =
     (case createFrame e (calls s) of
        Resolves \<Rightarrow>
          (s\<lparr> calls := calls s @ [CreateFrame (created s)], created := Suc (created s) \<rparr>,
           Some (AwaitFetch (created s)))
      | Rejects m \<Rightarrow>
          (catch_block (External m) (s\<lparr> calls := calls s @ [CreateFrameThrows m] \<rparr>), None))"

text \<open>
  Lines 82 to 145, for the function made by a render that saw \<open>v\<close>: the guard, the
  lock, the credential, the request, and the start of the teardown of a stored frame.
  The request carries a fixed JSON payload, left out of the trace.
\<close>

definition start_begin :: "env \<Rightarrow> closure \<Rightarrow> app \<Rightarrow> app \<times> pending option" where
  "start_begin e v s =
     (if connectLock s \<or> seen_isConnecting v \<or> seen_isConnected v then (s, None)
      else
        let s1 = s\<lparr> connectLock := True, isConnecting := True \<rparr> in
        (case VITE_PIPECAT_TOKEN e of
           None \<Rightarrow> (catch_block ConfigurationError s1, None)
         | Some apiKey \<Rightarrow>
             if apiKey = [] then (catch_block ConfigurationError s1, None)
             else
               let s2 = s1\<lparr> calls := calls s1 @ [Fetch (endpoint e) (authHeader apiKey)] \<rparr> in
               (case seen_callFrame v of
                  Some old \<Rightarrow> (s2\<lparr> calls := calls s2 @ [Leave old] \<rparr>, Some (AwaitLeave old))
                | None \<Rightarrow> create_frame e s2)))"

text \<open>\<open>.catch(console.error)\<close>: a rejection is logged and the code goes on.\<close>

definition swallow :: "outcome \<Rightarrow> app \<Rightarrow> app" where
  "swallow r s = (case r of Resolves \<Rightarrow> s | Rejects m \<Rightarrow> s\<lparr> console := console s @ [External m] \<rparr>)"

definition after_leave :: "outcome \<Rightarrow> nat \<Rightarrow> app \<Rightarrow> app \<times> pending option" where
  "after_leave r old s =
     (let s1 = swallow r s in (s1\<lparr> calls := calls s1 @ [Destroy old] \<rparr>, Some (AwaitDestroy old)))"

definition after_destroy :: "env \<Rightarrow> outcome \<Rightarrow> app \<Rightarrow> app \<times> pending option" where
  "after_destroy e r s = create_frame e ((swallow r s)\<lparr> callFrame := None \<rparr>)"

text \<open>The \<open>then\<close> handler of the request, lines 134 to 141.\<close>

definition fetch_then :: "fetch_outcome \<Rightarrow> error + jsval" where
  "fetch_then r =
     (case r of
        NetworkError m \<Rightarrow> Inl (External m)
      | Response res \<Rightarrow>
          if \<not> ok res then Inl (RequestError (status res) (statusText res) (body res))
          else (case parsed res of None \<Rightarrow> Inl (External ''SyntaxError'') | Some d \<Rightarrow> Inr d))"

text \<open>Lines 197 and 198.\<close>

definition read_room :: "jsval \<Rightarrow> error + jsval \<times> jsval" where
  "read_room d =
     (case d of
        Null \<Rightarrow> Inl TypeError
      | Undefined \<Rightarrow> Inl TypeError
      | _ \<Rightarrow>
          Inr (or_js (or_js (get_field d ''dailyRoom'') (get_field d ''room_url''))
                 (get_field d ''roomUrl''),
               or_js (get_field d ''dailyToken'') (get_field d ''token'')))"

text \<open>Lines 197 to 203: the aliases are read and both values must be truthy.\<close>

definition check_room :: "jsval \<Rightarrow> error + jsval \<times> jsval" where
  "check_room d =
     (case read_room d of
        Inl e \<Rightarrow> Inl e
      | Inr (roomUrl, roomToken) \<Rightarrow>
          if \<not> truthy roomUrl \<or> \<not> truthy roomToken then Inl ResponseShapeError
          else Inr (roomUrl, roomToken))"

text \<open>What \<open>await fetchPromise\<close> and the check after it give, lines 196 to 203.\<close>

definition room_of :: "fetch_outcome \<Rightarrow> error + jsval \<times> jsval" where
  "room_of r = (case fetch_then r of Inl e \<Rightarrow> Inl e | Inr d \<Rightarrow> check_room d)"

text \<open>Lines 196 to 206, for the frame made before.\<close>

definition after_fetch :: "fetch_outcome \<Rightarrow> nat \<Rightarrow> app \<Rightarrow> app \<times> pending option" where
  "after_fetch r frame s =
     (case room_of r of
        Inl e \<Rightarrow> (catch_block e s, None)
      | Inr (roomUrl, roomToken) \<Rightarrow>
          (s\<lparr> calls := calls s @ [Join frame roomUrl roomToken] \<rparr>, Some (AwaitJoin frame)))"

text \<open>Lines 206 to 211.\<close>

definition after_join :: "outcome \<Rightarrow> nat \<Rightarrow> app \<Rightarrow> app \<times> pending option" where
  "after_join r frame s =
     (case r of
        Resolves \<Rightarrow> (s\<lparr> callFrame := Some frame \<rparr>, None)
      | Rejects m \<Rightarrow> (catch_block (External m) s, None))"

subsection \<open>The listeners of a frame\<close>

definition on_joined :: "app \<Rightarrow> app" where
  "on_joined s = s\<lparr> isConnected := True, isConnecting := False, connectLock := False \<rparr>"

definition on_left :: "app \<Rightarrow> app" where
  "on_left s = s\<lparr> isConnected := False, connectLock := False \<rparr>"

definition on_error :: "app \<Rightarrow> app" where
  "on_error s =
     s\<lparr> isConnecting := False, connectLock := False,
        calls := calls s @ [Toast ''Error'' ''Connection failed''] \<rparr>"

definition on_participant_joined :: "string \<Rightarrow> string \<Rightarrow> nat \<Rightarrow> app \<Rightarrow> app" where
  "on_participant_joined user_name rid now s =
     (if user_name = ''Chatbot'' then addToTranscript rid now Ai ''I am Farm Vaidya AI'' s else s)"

definition on_active_speaker_change :: "app \<Rightarrow> app" where
  "on_active_speaker_change s = s"

subsection \<open>endConversation, toggleMute, handleSendMessage\<close>

definition end_finish :: "app \<Rightarrow> app" where
  "end_finish s = s\<lparr> isConnected := False, isOpen := False \<rparr>"

definition end_begin :: "app \<Rightarrow> app \<times> pending option" where
  "end_begin s =
     (case callFrame s of
        Some h \<Rightarrow> (s\<lparr> calls := calls s @ [Leave h] \<rparr>, Some AwaitEndLeave)
      | None \<Rightarrow> (end_finish s, None))"

text \<open>
  The \<open>await\<close> of line 223 has no handler: when the promise rejects, the function
  rejects with it and the two setters are not reached.
\<close>

definition end_after_leave :: "outcome \<Rightarrow> app \<Rightarrow> app" where
  "end_after_leave r s = (case r of Resolves \<Rightarrow> end_finish s | Rejects m \<Rightarrow> s)"

definition toggleMute :: "app \<Rightarrow> app" where
  "toggleMute s =
     (let newMuteState = \<not> isMuted s;
          s1 = (case callFrame s of
                  Some h \<Rightarrow> s\<lparr> calls := calls s @ [SetLocalAudio h (\<not> newMuteState)] \<rparr>
                | None \<Rightarrow> s)
      in s1\<lparr> isMuted := newMuteState \<rparr>)"

definition handleSendMessage :: "string \<Rightarrow> nat \<Rightarrow> app \<Rightarrow> app" where
  "handleSendMessage rid now s =
     (if list_all is_space (inputText s) then s
      else (addToTranscript rid now User (inputText s) s)
             \<lparr> inputText := [], timeouts := Suc (timeouts s) \<rparr>)"

definition mock_reply :: "string \<Rightarrow> nat \<Rightarrow> app \<Rightarrow> app" where
  "mock_reply rid now s =
     (if timeouts s = 0 then s
      else (addToTranscript rid now Ai
              ''I am a mock bot response. The API is bypassed for testing.'' s)
             \<lparr> timeouts := timeouts s - 1 \<rparr>)"

subsection \<open>The effects\<close>

text \<open>
  The timer effect depends on \<open>isConnected\<close>: when that value differs between two
  renders, the cleanup of the previous run clears the interval and the body runs again.
  \<open>commit s s'\<close> is the render after a handler took the state from \<open>s\<close> to \<open>s'\<close>.
\<close>

definition timer_effect :: "app \<Rightarrow> app" where
  "timer_effect s =
     (if isConnected s then s\<lparr> ticking := True \<rparr> else s\<lparr> ticking := False, timer := 0 \<rparr>)"

definition commit :: "app \<Rightarrow> app \<Rightarrow> app" where
  "commit s s' =
     (if isConnected s' = isConnected s then s' else timer_effect (s'\<lparr> ticking := False \<rparr>))"

definition tick :: "app \<Rightarrow> app" where
  "tick s = (if ticking s then s\<lparr> timer := timer s + 1 \<rparr> else s)"

text \<open>
  The toggle is only there while the widget is closed; it opens the widget, and the
  effect on \<open>isOpen\<close> then starts the conversation, with the function of the render
  that follows the click.
\<close>

definition click_open :: "env \<Rightarrow> app \<Rightarrow> app \<times> pending option" where
  "click_open e s =
     (if isOpen s then (s, None)
      else
        let s1 = s\<lparr> isOpen := True \<rparr> in
        if isOpen s1 \<and> \<not> isConnected s1 \<and> \<not> isConnecting s1
        then start_begin e (render s1) s1
        else (s1, None))"

subsection \<open>Running the component\<close>

text \<open>
  One label for each thing that can happen next: a call of one of the component's
  functions as the current render made it, an event of a frame that exists, the
  settling of a promise some invocation waits for, a tick of the interval. A label that
  cannot happen in a state leaves it as it is.
\<close>

datatype label =
    InvokeStart
  | InvokeEnd
  | ClickOpen
  | ToggleMute
  | SendMessage string nat
  | MockReply string nat
  | Tick
  | Joined nat
  | Left nat
  | SdkError nat
  | ParticipantJoined nat string string nat
  | ActiveSpeakerChange nat
  | Settles pending outcome
  | FetchSettles nat fetch_outcome

definition spawn :: "app \<times> pending option \<Rightarrow> app" where
  "spawn x = (case x of (s, None) \<Rightarrow> s | (s, Some p) \<Rightarrow> s\<lparr> tasks := tasks s @ [p] \<rparr>)"

definition resume :: "env \<Rightarrow> outcome \<Rightarrow> pending \<Rightarrow> app \<Rightarrow> app \<times> pending option" where
  "resume e r p s =
     (case p of
        AwaitLeave old \<Rightarrow> after_leave r old s
      | AwaitDestroy old \<Rightarrow> after_destroy e r s
      | AwaitJoin f \<Rightarrow> after_join r f s
      | AwaitEndLeave \<Rightarrow> (end_after_leave r s, None)
      | AwaitFetch f \<Rightarrow> (s, Some p))"

fun handler :: "env \<Rightarrow> label \<Rightarrow> app \<Rightarrow> app" where
  "handler e InvokeStart s = spawn (start_begin e (render s) s)"
| "handler e InvokeEnd s = spawn (end_begin s)"
| "handler e ClickOpen s = spawn (click_open e s)"
| "handler e ToggleMute s = toggleMute s"
| "handler e (SendMessage rid now) s = handleSendMessage rid now s"
| "handler e (MockReply rid now) s = mock_reply rid now s"
| "handler e Tick s = tick s"
| "handler e (Joined f) s = (if f < created s then on_joined s else s)"
| "handler e (Left f) s = (if f < created s then on_left s else s)"
| "handler e (SdkError f) s = (if f < created s then on_error s else s)"
| "handler e (ParticipantJoined f user_name rid now) s =
     (if f < created s then on_participant_joined user_name rid now s else s)"
| "handler e (ActiveSpeakerChange f) s =
     (if f < created s then on_active_speaker_change s else s)"
| "handler e (Settles p r) s =
     (if p \<in> set (tasks s) then spawn (resume e r p (s\<lparr> tasks := remove1 p (tasks s) \<rparr>))
      else s)"
| "handler e (FetchSettles f r) s =
     (if AwaitFetch f \<in> set (tasks s)
      then spawn (after_fetch r f (s\<lparr> tasks := remove1 (AwaitFetch f) (tasks s) \<rparr>))
      else s)"

definition step :: "env \<Rightarrow> label \<Rightarrow> app \<Rightarrow> app" where
  "step e l s = commit s (handler e l s)"

fun run :: "env \<Rightarrow> label list \<Rightarrow> app \<Rightarrow> app" where
  "run e [] s = s"
| "run e (l # ls) s = run e ls (step e l s)"

inductive reachable :: "env \<Rightarrow> app \<Rightarrow> bool" for e :: env where
  reachable_init: "reachable e init"
| reachable_step: "reachable e s \<Longrightarrow> reachable e (step e l s)"

subsection \<open>One invocation on its own\<close>

text \<open>
  An invocation of the current render's function, run from its call to its end with
  nothing else in between; \<open>replies\<close> says how each promise it waits for settles.
\<close>

record replies =
  on_leave :: outcome
  on_destroy :: outcome
  on_fetch :: fetch_outcome
  on_join :: outcome

definition settle_teardown ::
  "env \<Rightarrow> replies \<Rightarrow> app \<times> pending option \<Rightarrow> app \<times> pending option" where
  "settle_teardown e rs x =
     (case x of
        (s, Some (AwaitLeave old)) \<Rightarrow>
          after_destroy e (on_destroy rs) (fst (after_leave (on_leave rs) old s))
      | _ \<Rightarrow> x)"

definition settle_fetch :: "replies \<Rightarrow> app \<times> pending option \<Rightarrow> app \<times> pending option" where
  "settle_fetch rs x =
     (case x of (s, Some (AwaitFetch f)) \<Rightarrow> after_fetch (on_fetch rs) f s | _ \<Rightarrow> x)"

definition settle_join :: "replies \<Rightarrow> app \<times> pending option \<Rightarrow> app" where
  "settle_join rs x =
     (case x of (s, Some (AwaitJoin f)) \<Rightarrow> fst (after_join (on_join rs) f s) | (s, _) \<Rightarrow> s)"

definition startConversation :: "env \<Rightarrow> replies \<Rightarrow> app \<Rightarrow> app" where
  "startConversation e rs s =
     settle_join rs (settle_fetch rs (settle_teardown e rs (start_begin e (render s) s)))"

definition endConversation :: "outcome \<Rightarrow> app \<Rightarrow> app" where
  "endConversation r s =
     (case end_begin s of
        (s1, Some p) \<Rightarrow> end_after_leave r s1
      | (s1, None) \<Rightarrow> s1)"

subsection \<open>Reading the trace\<close>

fun is_request :: "call \<Rightarrow> bool" where
  "is_request (Fetch _ _) = True"
| "is_request _ = False"

fun is_create :: "call \<Rightarrow> bool" where
  "is_create (CreateFrame _) = True"
| "is_create _ = False"

fun is_throw :: "call \<Rightarrow> bool" where
  "is_throw (CreateFrameThrows _) = True"
| "is_throw _ = False"

fun is_join :: "call \<Rightarrow> bool" where
  "is_join (Join _ _ _) = True"
| "is_join _ = False"

definition requests :: "call list \<Rightarrow> nat" where
  "requests cs = length (filter is_request cs)"

definition frames_made :: "call list \<Rightarrow> nat" where
  "frames_made cs = length (filter is_create cs)"

definition create_throws :: "call list \<Rightarrow> nat" where
  "create_throws cs = length (filter is_throw cs)"

definition joins :: "call list \<Rightarrow> call list" where
  "joins cs = filter is_join cs"

text \<open>The frames that were made and on which \<open>destroy\<close> was not called since.\<close>

fun live_after :: "nat list \<Rightarrow> call \<Rightarrow> nat list" where
  "live_after fs (CreateFrame f) = fs @ [f]"
| "live_after fs (Destroy f) = removeAll f fs"
| "live_after fs _ = fs"

definition live :: "call list \<Rightarrow> nat list" where
  "live cs = foldl live_after [] cs"

text \<open>Several entries appended one after the other.\<close>

definition entry :: "string \<times> nat \<times> speaker \<times> string \<Rightarrow> TranscriptMessage" where
  "entry x = (case x of (rid, now, sp, txt) \<Rightarrow>
     \<lparr> m_id = rid, m_speaker = sp, m_text = txt, m_timestamp = now \<rparr>)"

definition append_all :: "(string \<times> nat \<times> speaker \<times> string) list \<Rightarrow> app \<Rightarrow> app" where
  "append_all es s = fold (\<lambda>(rid, now, sp, txt). addToTranscript rid now sp txt) es s"

text \<open>
  The calls of the teardown of a stored frame, the calls made when an invocation from
  the state \<open>s\<close> gets to \<open>createFrame\<close>, and whether the frame is made then.
\<close>

definition teardown_calls :: "nat option \<Rightarrow> call list" where
  "teardown_calls cf = (case cf of None \<Rightarrow> [] | Some old \<Rightarrow> [Leave old, Destroy old])"

definition before_create :: "env \<Rightarrow> app \<Rightarrow> call list" where
  "before_create e s =
     calls s @
     (case VITE_PIPECAT_TOKEN e of
        None \<Rightarrow> []
      | Some k \<Rightarrow> [Fetch (endpoint e) (authHeader k)]) @
     teardown_calls (callFrame s)"

definition frame_is_made :: "env \<Rightarrow> app \<Rightarrow> bool" where
  "frame_is_made e s = (createFrame e (before_create e s) = Resolves)"

text \<open>An invocation on its own ends with the frame joined.\<close>

definition join_succeeds :: "replies \<Rightarrow> bool" where
  "join_succeeds rs =
     (case room_of (on_fetch rs) of Inl e \<Rightarrow> False | Inr ut \<Rightarrow> on_join rs = Resolves)"

subsection \<open>Predicates for the invariants\<close>

text \<open>
  The timer is in step with the connection: the interval runs exactly while the
  component is connected, and the timer is zero while it is not.
\<close>

definition timer_ok :: "app \<Rightarrow> bool" where
  "timer_ok s = (if isConnected s then ticking s else \<not> ticking s \<and> timer s = 0)"

text \<open>Nothing was ever started: the state of a component that has no credential.\<close>

definition idle :: "app \<Rightarrow> bool" where
  "idle s =
     (\<not> connectLock s \<and> \<not> isConnecting s \<and> \<not> isConnected s \<and> created s = 0 \<and>
      callFrame s = None \<and> tasks s = [] \<and> requests (calls s) = 0)"

text \<open>
  What may happen between two invocations without the component being told that the
  attempt is over: promises settle, the frame reports that the session is joined or
  that a participant arrived, the interval ticks, the user mutes or sends a message.
  The listeners for the left and the error event and \<open>endConversation\<close> release the
  lock or clear the flags (lines 170 to 178 and 225) and are left out. \<open>calm\<close> leaves
  out the joined event as well, which releases the lock too (line 168).
\<close>

fun quiet :: "label \<Rightarrow> bool" where
  "quiet InvokeStart = False"
| "quiet InvokeEnd = False"
| "quiet ClickOpen = False"
| "quiet (Left _) = False"
| "quiet (SdkError _) = False"
| "quiet _ = True"

fun calm :: "label \<Rightarrow> bool" where
  "calm (Joined _) = False"
| "calm l = quiet l"

fun tearing_down :: "pending \<Rightarrow> bool" where
  "tearing_down (AwaitLeave _) = True"
| "tearing_down (AwaitDestroy _) = True"
| "tearing_down _ = False"

text \<open>
  One invocation went ahead from a state with \<open>n\<close> requests, \<open>k\<close> frames made and \<open>t\<close>
  throwing calls of \<open>createFrame\<close>: its request is out, and either it is over and has
  called \<open>createFrame\<close> once, or it is suspended, the guard of the current render is
  closed, and it has called \<open>createFrame\<close>, with a frame made, once the teardown is
  through.
\<close>

definition in_flight :: "nat \<Rightarrow> nat \<Rightarrow> nat \<Rightarrow> app \<Rightarrow> bool" where
  "in_flight n k t c =
     (requests (calls c) = Suc n \<and>
      (case tasks c of
         [] \<Rightarrow>
           frames_made (calls c) = Suc k \<and> create_throws (calls c) = t \<or>
           frames_made (calls c) = k \<and> create_throws (calls c) = Suc t
       | [p] \<Rightarrow>
           guard c \<and> p \<noteq> AwaitEndLeave \<and> create_throws (calls c) = t \<and>
           frames_made (calls c) = (if tearing_down p then k else Suc k)
       | _ \<Rightarrow> False))"

text \<open>At most one invocation is suspended, and while it is the lock is held.\<close>

definition lock_kept :: "app \<Rightarrow> bool" where
  "lock_kept c =
     (case tasks c of
        [] \<Rightarrow> True
      | [p] \<Rightarrow> connectLock c \<and> p \<noteq> AwaitEndLeave
      | _ \<Rightarrow> False)"

subsection \<open>A configuration and some replies to run the component on\<close>

text \<open>
  Two ways \<open>createFrame\<close> may behave: it makes a frame whenever it is called, or it
  refuses to make one while an earlier frame has not been destroyed.
\<close>

definition any_frame :: "call list \<Rightarrow> outcome" where
  "any_frame cs = Resolves"

definition one_frame :: "call list \<Rightarrow> outcome" where
  "one_frame cs =
     (if live cs = [] then Resolves
      else Rejects ''Duplicate DailyIframe instances are not allowed'')"

definition demo_env :: env where
  "demo_env = \<lparr> VITE_PIPECAT_ENDPOINT = None, VITE_PIPECAT_TOKEN = Some ''abc'',
                createFrame = one_frame \<rparr>"

definition lenient_env :: env where
  "lenient_env = \<lparr> VITE_PIPECAT_ENDPOINT = None, VITE_PIPECAT_TOKEN = Some ''abc'',
                   createFrame = any_frame \<rparr>"

definition no_token_env :: env where
  "no_token_env = \<lparr> VITE_PIPECAT_ENDPOINT = None, VITE_PIPECAT_TOKEN = None,
                    createFrame = one_frame \<rparr>"

definition room_response :: http_response where
  "room_response =
     \<lparr> ok = True, status = 200, statusText = ''OK'', body = [],
       parsed = Some (Obj [(''dailyRoom'', Str ''u''), (''dailyToken'', Str ''t'')]) \<rparr>"

definition all_fine :: replies where
  "all_fine = \<lparr> on_leave = Resolves, on_destroy = Resolves,
                on_fetch = Response room_response, on_join = Resolves \<rparr>"

definition unauthorized :: replies where
  "unauthorized = all_fine\<lparr> on_fetch :=
     Response (room_response\<lparr> ok := False, status := 401, statusText := ''Unauthorized'' \<rparr>) \<rparr>"

definition null_body :: replies where
  "null_body = all_fine\<lparr> on_fetch := Response (room_response\<lparr> parsed := Some Null \<rparr>) \<rparr>"

definition empty_object :: replies where
  "empty_object = all_fine\<lparr> on_fetch := Response (room_response\<lparr> parsed := Some (Obj []) \<rparr>) \<rparr>"

text \<open>
  The widget opened and the room obtained, the join under way; then the frame joined:
  a connected call; then the same call ended by the user, the widget closed, the frame
  still stored.
\<close>

definition joining :: app where
  "joining = run demo_env [ClickOpen, FetchSettles 0 (Response room_response)] init"

definition in_call :: app where
  "in_call = run demo_env [Joined 0, Settles (AwaitJoin 0) Resolves] joining"

definition after_call :: app where
  "after_call = run demo_env [InvokeEnd, Settles AwaitEndLeave Resolves, Left 0] in_call"


section \<open>Properties\<close>

subsection \<open>Basic facts\<close>

lemmas run_defs = step_def commit_def timer_effect_def spawn_def resume_def render_def
  start_begin_def click_open_def create_frame_def after_fetch_def after_join_def after_leave_def
  after_destroy_def swallow_def catch_block_def room_of_def fetch_then_def check_room_def
  read_room_def get_field_def or_js_def end_begin_def end_after_leave_def end_finish_def
  on_joined_def on_left_def on_error_def endpoint_def authHeader_def is_space_def
  one_frame_def any_frame_def live_def

lemmas handler_defs = spawn_def start_begin_def click_open_def create_frame_def catch_block_def
  end_begin_def end_finish_def toggleMute_def handleSendMessage_def mock_reply_def
  addToTranscript_def tick_def on_joined_def on_left_def on_error_def render_def
  on_participant_joined_def on_active_speaker_change_def resume_def after_leave_def
  after_destroy_def after_join_def after_fetch_def end_after_leave_def swallow_def Let_def

lemma swallow_fields [simp]:
  "isOpen (swallow r s) = isOpen s" "isConnected (swallow r s) = isConnected s"
  "isConnecting (swallow r s) = isConnecting s" "isMuted (swallow r s) = isMuted s"
  "transcript (swallow r s) = transcript s" "callFrame (swallow r s) = callFrame s"
  "timer (swallow r s) = timer s" "inputText (swallow r s) = inputText s"
  "connectLock (swallow r s) = connectLock s" "ticking (swallow r s) = ticking s"
  "calls (swallow r s) = calls s" "created (swallow r s) = created s"
  "timeouts (swallow r s) = timeouts s" "tasks (swallow r s) = tasks s"
  by (auto simp: swallow_def split: outcome.splits)

lemma catch_block_fields [simp]:
  "isOpen (catch_block er s) = isOpen s" "isConnected (catch_block er s) = isConnected s"
  "\<not> isConnecting (catch_block er s)" "isMuted (catch_block er s) = isMuted s"
  "transcript (catch_block er s) = transcript s" "callFrame (catch_block er s) = callFrame s"
  "timer (catch_block er s) = timer s" "inputText (catch_block er s) = inputText s"
  "\<not> connectLock (catch_block er s)" "ticking (catch_block er s) = ticking s"
  "console (catch_block er s) = console s @ [er]" "created (catch_block er s) = created s"
  "timeouts (catch_block er s) = timeouts s" "tasks (catch_block er s) = tasks s"
  "calls (catch_block er s) = calls s @ [Toast ''Error''
      (if message er = [] then ''Could not start conversation'' else message er)]"
  by (simp_all add: catch_block_def)

lemma commit_fields [simp]:
  "isConnected (commit s s') = isConnected s'" "isConnecting (commit s s') = isConnecting s'"
  "connectLock (commit s s') = connectLock s'" "calls (commit s s') = calls s'"
  "tasks (commit s s') = tasks s'" "created (commit s s') = created s'"
  "callFrame (commit s s') = callFrame s'" "isOpen (commit s s') = isOpen s'"
  "console (commit s s') = console s'" "transcript (commit s s') = transcript s'"
  by (simp_all add: commit_def timer_effect_def)

lemma commit_same [simp]: "commit s s = s"
  by (simp add: commit_def)

lemma guard_commit [simp]: "guard (commit s s') = guard s'"
  by (simp add: guard_def)

lemma run_append: "run e (xs @ ys) s = run e ys (run e xs s)"
  by (induction xs arbitrary: s) simp_all

lemma reachable_run: "reachable e s \<Longrightarrow> reachable e (run e ls s)"
  by (induction ls arbitrary: s) (simp_all add: reachable_step)

lemma requests_simps [simp]:
  "requests [] = 0" "requests (xs @ ys) = requests xs + requests ys"
  "requests (c # cs) = (if is_request c then Suc (requests cs) else requests cs)"
  by (simp_all add: requests_def)

lemma frames_made_simps [simp]:
  "frames_made [] = 0" "frames_made (xs @ ys) = frames_made xs + frames_made ys"
  "frames_made (c # cs) = (if is_create c then Suc (frames_made cs) else frames_made cs)"
  by (simp_all add: frames_made_def)

lemma create_throws_simps [simp]:
  "create_throws [] = 0" "create_throws (xs @ ys) = create_throws xs + create_throws ys"
  "create_throws (c # cs) = (if is_throw c then Suc (create_throws cs) else create_throws cs)"
  by (simp_all add: create_throws_def)

lemma joins_simps [simp]:
  "joins [] = []" "joins (xs @ ys) = joins xs @ joins ys"
  "joins (c # cs) = (if is_join c then c # joins cs else joins cs)"
  by (simp_all add: joins_def)

lemma joins_teardown [simp]: "joins (teardown_calls cf) = []"
  by (simp add: teardown_calls_def split: option.splits)

lemma guard_render:
  "guard s = (connectLock s \<or> seen_isConnecting (render s) \<or> seen_isConnected (render s))"
  by (simp add: guard_def render_def)

subsection \<open>The example states\<close>

lemma joining_eq:
  "joining =
     \<lparr> isOpen = True, isConnected = False, isConnecting = True, isMuted = False,
       transcript = [], callFrame = None, timer = 0, inputText = [],
       connectLock = True, ticking = False,
       calls = [Fetch ''https://api.pipecat.daily.co/v1/public/webagent/start'' ''Bearer abc'',
                CreateFrame 0, Join 0 (Str ''u'') (Str ''t'')],
       console = [], created = 1, timeouts = 0, tasks = [AwaitJoin 0] \<rparr>"
  by (simp add: joining_def init_def demo_env_def room_response_def run_defs)

lemma in_call_eq:
  "in_call =
     \<lparr> isOpen = True, isConnected = True, isConnecting = False, isMuted = False,
       transcript = [], callFrame = Some 0, timer = 0, inputText = [],
       connectLock = False, ticking = True,
       calls = [Fetch ''https://api.pipecat.daily.co/v1/public/webagent/start'' ''Bearer abc'',
                CreateFrame 0, Join 0 (Str ''u'') (Str ''t'')],
       console = [], created = 1, timeouts = 0, tasks = [] \<rparr>"
  by (simp add: in_call_def joining_eq run_defs)

lemma after_call_eq:
  "after_call =
     \<lparr> isOpen = False, isConnected = False, isConnecting = False, isMuted = False,
       transcript = [], callFrame = Some 0, timer = 0, inputText = [],
       connectLock = False, ticking = False,
       calls = [Fetch ''https://api.pipecat.daily.co/v1/public/webagent/start'' ''Bearer abc'',
                CreateFrame 0, Join 0 (Str ''u'') (Str ''t''), Leave 0],
       console = [], created = 1, timeouts = 0, tasks = [] \<rparr>"
  by (simp add: after_call_def in_call_eq run_defs)

lemma reachable_joining: "reachable demo_env joining"
  unfolding joining_def by (rule reachable_run [OF reachable_init])

lemma reachable_in_call: "reachable demo_env in_call"
  unfolding in_call_def by (rule reachable_run [OF reachable_joining])

subsection \<open>One invocation, from the guard to the request\<close>

text \<open>
  An invocation that passes the guard with a credential always gets as far as calling
  \<open>createFrame\<close>, whatever the teardown promises do: by then it has sent the request,
  left and destroyed the stored frame if there was one, and cleared the stored frame.
\<close>

lemma prelude:
  assumes "\<not> guard s" "VITE_PIPECAT_TOKEN e = Some k" "k \<noteq> []"
  shows "\<exists>p. settle_teardown e rs (start_begin e (render s) s) = create_frame e p \<and>
           calls p = before_create e s \<and>
           callFrame p = None \<and> isConnected p = isConnected s \<and> isOpen p = isOpen s \<and>
           isConnecting p \<and> connectLock p \<and> created p = created s \<and>
           tasks p = tasks s \<and> transcript p = transcript s"
proof (cases "callFrame s")
  case None
  with assms show ?thesis
    by (cases "createFrame e (calls s @ [Fetch (endpoint e) (authHeader k)])")
       (auto simp: guard_def render_def start_begin_def settle_teardown_def create_frame_def
          before_create_def teardown_calls_def
          intro!: exI [of _ "s\<lparr> connectLock := True, isConnecting := True,
            calls := calls s @ [Fetch (endpoint e) (authHeader k)] \<rparr>"])
next
  case (Some old)
  with assms show ?thesis
    apply (simp add: guard_def render_def start_begin_def settle_teardown_def
          after_leave_def after_destroy_def before_create_def teardown_calls_def)
    apply (rule exI, rule conjI, rule refl)
    apply simp
    done
qed

lemma prelude_made:
  assumes "\<not> guard s" "VITE_PIPECAT_TOKEN e = Some k" "k \<noteq> []" "frame_is_made e s"
  shows "\<exists>p. settle_teardown e rs (start_begin e (render s) s) =
               (p, Some (AwaitFetch (created s))) \<and>
           calls p = before_create e s @ [CreateFrame (created s)] \<and>
           callFrame p = None \<and> isConnected p = isConnected s \<and> isOpen p = isOpen s \<and>
           isConnecting p \<and> connectLock p \<and> created p = Suc (created s) \<and>
           tasks p = tasks s"
proof -
  from prelude [OF assms(1-3), of rs] obtain p0 where
    p0: "settle_teardown e rs (start_begin e (render s) s) = create_frame e p0"
        "calls p0 = before_create e s" "callFrame p0 = None" "isConnected p0 = isConnected s"
        "isOpen p0 = isOpen s" "isConnecting p0" "connectLock p0" "created p0 = created s"
        "tasks p0 = tasks s"
    by blast
  with assms(4) show ?thesis
    by (simp add: create_frame_def frame_is_made_def)
qed

lemma prelude_thrown:
  assumes "\<not> guard s" "VITE_PIPECAT_TOKEN e = Some k" "k \<noteq> []"
    "createFrame e (before_create e s) = Rejects m"
  shows "\<exists>p. startConversation e rs s = catch_block (External m) p \<and>
           calls p = before_create e s @ [CreateFrameThrows m] \<and>
           callFrame p = None \<and> isConnected p = isConnected s"
proof -
  from prelude [OF assms(1-3), of rs] obtain p0 where
    p0: "settle_teardown e rs (start_begin e (render s) s) = create_frame e p0"
        "calls p0 = before_create e s" "callFrame p0 = None" "isConnected p0 = isConnected s"
    by blast
  with assms(4) show ?thesis
    by (auto simp: startConversation_def create_frame_def settle_fetch_def settle_join_def
        intro!: exI [of _ "p0\<lparr> calls := calls p0 @ [CreateFrameThrows m] \<rparr>"])
qed

lemma after_prelude:
  assumes "settle_teardown e rs (start_begin e (render s) s) = (p, Some (AwaitFetch f))"
  shows "startConversation e rs s =
           (case room_of (on_fetch rs) of
              Inl er \<Rightarrow> catch_block er p
            | Inr ut \<Rightarrow>
                (case on_join rs of
                   Resolves \<Rightarrow> p\<lparr> calls := calls p @ [Join f (fst ut) (snd ut)],
                                 callFrame := Some f \<rparr>
                 | Rejects m \<Rightarrow>
                     catch_block (External m)
                       (p\<lparr> calls := calls p @ [Join f (fst ut) (snd ut)] \<rparr>)))"
  using assms
  by (simp add: startConversation_def settle_fetch_def settle_join_def after_fetch_def
        after_join_def split: sum.splits outcome.splits prod.splits)

lemma joins_before_create [simp]: "joins (before_create e s) = joins (calls s)"
  by (simp add: before_create_def split: option.splits)

lemma failed_invocation:
  assumes "\<not> guard s" "configured e" "frame_is_made e s" "room_of (on_fetch rs) = Inl er"
  shows "console (startConversation e rs s) \<noteq> [] \<and>
         last (console (startConversation e rs s)) = er \<and>
         joins (calls (startConversation e rs s)) = joins (calls s) \<and>
         isConnected (startConversation e rs s) = isConnected s \<and>
         \<not> isConnecting (startConversation e rs s) \<and>
         \<not> connectLock (startConversation e rs s)"
proof -
  from assms(2) obtain k where k: "VITE_PIPECAT_TOKEN e = Some k" "k \<noteq> []"
    by (auto simp: configured_def split: option.splits)
  from prelude_made [OF assms(1) k assms(3), of rs] obtain p where
    p: "settle_teardown e rs (start_begin e (render s) s) = (p, Some (AwaitFetch (created s)))"
       "calls p = before_create e s @ [CreateFrame (created s)]"
       "isConnected p = isConnected s"
    by blast
  have "startConversation e rs s = catch_block er p"
    using after_prelude [OF p(1)] assms(4) by simp
  with p(2,3) show ?thesis
    by simp
qed

subsection \<open>The guard and the lock\<close>

lemma turned_away:
  "connectLock s \<or> seen_isConnecting v \<or> seen_isConnected v \<Longrightarrow> start_begin e v s = (s, None)"
  by (simp add: start_begin_def)

lemma guarded_noop: "guard s \<Longrightarrow> step e InvokeStart s = s"
  by (simp add: guard_render turned_away step_def spawn_def)

lemma start_in_flight:
  assumes "\<not> guard s" "configured e" "tasks s = []"
  shows "in_flight (requests (calls s)) (frames_made (calls s)) (create_throws (calls s))
           (step e InvokeStart s)"
  using assms
  by (auto simp: in_flight_def guard_def render_def configured_def step_def spawn_def
        start_begin_def create_frame_def Let_def split: option.splits outcome.splits)

lemma handler_in_flight:
  assumes "in_flight n k t c" "quiet l"
  shows "in_flight n k t (handler e l c)"
proof (cases "tasks c")
  case Nil
  with assms show ?thesis
    by (cases l)
       (auto simp: in_flight_def toggleMute_def handleSendMessage_def mock_reply_def
          addToTranscript_def tick_def on_joined_def on_participant_joined_def
          on_active_speaker_change_def Let_def split: option.splits)
next
  case (Cons p ps)
  with assms have ps: "ps = []" and g: "guard c" and p: "p \<noteq> AwaitEndLeave"
    by (auto simp: in_flight_def split: list.splits)
  show ?thesis
  proof (cases l)
    case (Settles q r)
    with assms Cons ps g p show ?thesis
      by (cases p; cases r)
         (auto simp: in_flight_def guard_def spawn_def resume_def after_leave_def
            after_destroy_def after_join_def create_frame_def catch_block_def swallow_def
            Let_def split: outcome.splits)
  next
    case (FetchSettles f r)
    with assms Cons ps g p show ?thesis
      by (cases p; cases "room_of r")
         (auto simp: in_flight_def guard_def spawn_def after_fetch_def catch_block_def)
  qed (use assms Cons ps g p in \<open>auto simp: in_flight_def guard_def toggleMute_def
          handleSendMessage_def mock_reply_def addToTranscript_def tick_def on_joined_def
          on_participant_joined_def on_active_speaker_change_def Let_def
          split: option.splits\<close>)
qed

lemma in_flight_commit: "in_flight n k t (commit c c') = in_flight n k t c'"
  by (simp add: in_flight_def cong: list.case_cong)

lemma step_in_flight: "in_flight n k t c \<Longrightarrow> quiet l \<Longrightarrow> in_flight n k t (step e l c)"
  by (simp add: step_def in_flight_commit handler_in_flight)

lemma run_in_flight:
  "in_flight n k t c \<Longrightarrow> list_all quiet ls \<Longrightarrow> in_flight n k t (run e ls c)"
  by (induction ls arbitrary: c) (simp_all add: step_in_flight)

lemma in_flight_closed: "in_flight n k t c \<Longrightarrow> tasks c \<noteq> [] \<Longrightarrow> guard c"
  by (auto simp: in_flight_def split: list.splits)

lemma in_flight_counts:
  "in_flight n k t c \<Longrightarrow>
   requests (calls c) = Suc n \<and> frames_made (calls c) \<le> Suc k \<and>
   (\<not> list_ex tearing_down (tasks c) \<longrightarrow>
      frames_made (calls c) + create_throws (calls c) = Suc (k + t))"
  by (auto simp: in_flight_def split: list.splits)

lemma start_lock_kept:
  assumes "\<not> guard s" "configured e" "tasks s = []"
  shows "lock_kept (step e InvokeStart s)"
  using assms
  by (auto simp: lock_kept_def guard_def render_def configured_def step_def spawn_def
        start_begin_def create_frame_def Let_def split: option.splits outcome.splits)

lemma handler_lock_kept:
  assumes "lock_kept c" "calm l"
  shows "lock_kept (handler e l c)"
proof (cases "tasks c")
  case Nil
  with assms show ?thesis
    by (cases l)
       (auto simp: lock_kept_def toggleMute_def handleSendMessage_def mock_reply_def
          addToTranscript_def tick_def on_participant_joined_def
          on_active_speaker_change_def Let_def split: option.splits)
next
  case (Cons p ps)
  with assms have ps: "ps = []" and g: "connectLock c" and p: "p \<noteq> AwaitEndLeave"
    by (auto simp: lock_kept_def split: list.splits)
  show ?thesis
  proof (cases l)
    case (Settles q r)
    with assms Cons ps g p show ?thesis
      by (cases p; cases r)
         (auto simp: lock_kept_def spawn_def resume_def after_leave_def
            after_destroy_def after_join_def create_frame_def catch_block_def swallow_def
            Let_def split: outcome.splits)
  next
    case (FetchSettles f r)
    with assms Cons ps g p show ?thesis
      by (cases p; cases "room_of r")
         (auto simp: lock_kept_def spawn_def after_fetch_def catch_block_def)
  qed (use assms Cons ps g p in \<open>auto simp: lock_kept_def toggleMute_def
          handleSendMessage_def mock_reply_def addToTranscript_def tick_def
          on_participant_joined_def on_active_speaker_change_def Let_def
          split: option.splits\<close>)
qed

lemma lock_kept_commit: "lock_kept (commit c c') = lock_kept c'"
  by (simp add: lock_kept_def cong: list.case_cong)

lemma run_lock_kept: "lock_kept c \<Longrightarrow> list_all calm ls \<Longrightarrow> lock_kept (run e ls c)"
  by (induction ls arbitrary: c) (simp_all add: step_def lock_kept_commit handler_lock_kept)

lemma lock_kept_held: "lock_kept c \<Longrightarrow> tasks c \<noteq> [] \<Longrightarrow> connectLock c"
  by (auto simp: lock_kept_def split: list.splits)

text \<open>
  C1, as amended. The function returns at once and leaves the whole state, the trace of
  outside calls included, as it was whenever the lock is held or the render that made
  it saw \<open>isConnecting\<close> or \<open>isConnected\<close> true. When an invocation goes ahead (the guard
  open, a credential configured, nothing else suspended) and a second one is made
  while the first is still suspended:
  \<^item> if only quiet things happened before and after, the second changes nothing, the
    two together send exactly one request and make at most one frame, and
    \<open>createFrame\<close> has been called exactly once as soon as the teardown of a stored
    frame is through;
  \<^item> if the second is the function of the same render as the first, which saw neither
    flag, and only calm things happened in between, it is the lock that turns it away.

  Nothing is said of a second invocation after a left event, an error event or a call
  of \<open>endConversation\<close>: they release the lock or clear the flags while the first
  invocation may still be suspended.
\<close>

theorem second_invocation_is_turned_away:
  "(connectLock s \<or> seen_isConnecting v \<or> seen_isConnected v \<longrightarrow>
      start_begin e v s = (s, None)) \<and>
   (guard s \<longrightarrow> step e InvokeStart s = s) \<and>
   (\<not> guard s \<and> configured e \<and> tasks s = [] \<and> list_all quiet ls1 \<and> list_all quiet ls2 \<and>
    tasks (run e (InvokeStart # ls1) s) \<noteq> [] \<longrightarrow>
      step e InvokeStart (run e (InvokeStart # ls1) s) = run e (InvokeStart # ls1) s \<and>
      requests (calls (run e (InvokeStart # ls1 @ InvokeStart # ls2) s)) =
        requests (calls s) + 1 \<and>
      frames_made (calls (run e (InvokeStart # ls1 @ InvokeStart # ls2) s)) \<le>
        frames_made (calls s) + 1 \<and>
      (\<not> list_ex tearing_down (tasks (run e (InvokeStart # ls1 @ InvokeStart # ls2) s)) \<longrightarrow>
         frames_made (calls (run e (InvokeStart # ls1 @ InvokeStart # ls2) s)) +
         create_throws (calls (run e (InvokeStart # ls1 @ InvokeStart # ls2) s)) =
           frames_made (calls s) + create_throws (calls s) + 1)) \<and>
   (\<not> guard s \<and> configured e \<and> tasks s = [] \<and> list_all calm ls1 \<and>
    tasks (run e (InvokeStart # ls1) s) \<noteq> [] \<longrightarrow>
      \<not> seen_isConnecting (render s) \<and> \<not> seen_isConnected (render s) \<and>
      connectLock (run e (InvokeStart # ls1) s) \<and>
      start_begin e (render s) (run e (InvokeStart # ls1) s) =
        (run e (InvokeStart # ls1) s, None))"
proof (intro conjI impI)
  assume "connectLock s \<or> seen_isConnecting v \<or> seen_isConnected v"
  then show "start_begin e v s = (s, None)"
    by (rule turned_away)
next
  assume "guard s"
  then show "step e InvokeStart s = s"
    by (rule guarded_noop)
next
  assume a: "\<not> guard s \<and> configured e \<and> tasks s = [] \<and> list_all quiet ls1 \<and>
    list_all quiet ls2 \<and> tasks (run e (InvokeStart # ls1) s) \<noteq> []"
  let ?n = "requests (calls s)" and ?k = "frames_made (calls s)"
  let ?t = "create_throws (calls s)"
  let ?c1 = "run e (InvokeStart # ls1) s"
  let ?c2 = "run e (InvokeStart # ls1 @ InvokeStart # ls2) s"
  from a have f0: "in_flight ?n ?k ?t (step e InvokeStart s)"
    by (simp add: start_in_flight)
  with a have f1: "in_flight ?n ?k ?t ?c1"
    by (simp add: run_in_flight)
  with a have noop: "step e InvokeStart ?c1 = ?c1"
    using in_flight_closed guarded_noop by blast
  have "?c2 = run e ls2 (step e InvokeStart ?c1)"
    by (simp add: run_append)
  with noop f1 a have f2: "in_flight ?n ?k ?t ?c2"
    by (simp add: run_in_flight)
  from noop show "step e InvokeStart ?c1 = ?c1" .
  from in_flight_counts [OF f2]
  show "requests (calls ?c2) = ?n + 1" "frames_made (calls ?c2) \<le> ?k + 1"
    by simp_all
  assume "\<not> list_ex tearing_down (tasks ?c2)"
  with in_flight_counts [OF f2]
  show "frames_made (calls ?c2) + create_throws (calls ?c2) = ?k + ?t + 1"
    by simp
next
  assume a: "\<not> guard s \<and> configured e \<and> tasks s = [] \<and> list_all calm ls1 \<and>
    tasks (run e (InvokeStart # ls1) s) \<noteq> []"
  let ?c1 = "run e (InvokeStart # ls1) s"
  from a show "\<not> seen_isConnecting (render s)" "\<not> seen_isConnected (render s)"
    by (simp_all add: guard_render)
  from a have "lock_kept (step e InvokeStart s)"
    by (simp add: start_lock_kept)
  with a have "lock_kept ?c1"
    by (simp add: run_lock_kept)
  with a show held: "connectLock ?c1"
    by (simp add: lock_kept_held)
  then show "start_begin e (render s) ?c1 = (?c1, None)"
    by (simp add: turned_away)
qed

text \<open>
  After a call, frame 0 is stored. Two invocations, the second while the first waits
  for \<open>leave\<close>; then the teardown, the request, the joined event and the join go
  through: one request more than before, one frame more than before. And a second call
  of the function that started the first is stopped by the lock.
\<close>

theorem second_invocation_is_turned_away_witness:
  "\<not> guard after_call \<and> configured demo_env \<and>
   tasks (run demo_env [InvokeStart] after_call) = [AwaitLeave 0] \<and>
   requests (calls after_call) = 1 \<and> frames_made (calls after_call) = 1 \<and>
   requests (calls (run demo_env
     [InvokeStart, InvokeStart, Settles (AwaitLeave 0) (Rejects ''gone''),
      Settles (AwaitDestroy 0) Resolves, FetchSettles 1 (Response room_response), Joined 1,
      Settles (AwaitJoin 1) Resolves] after_call)) = 2 \<and>
   frames_made (calls (run demo_env
     [InvokeStart, InvokeStart, Settles (AwaitLeave 0) (Rejects ''gone''),
      Settles (AwaitDestroy 0) Resolves, FetchSettles 1 (Response room_response), Joined 1,
      Settles (AwaitJoin 1) Resolves] after_call)) = 2 \<and>
   connectLock (run demo_env [InvokeStart] after_call) \<and>
   \<not> isConnecting after_call \<and>
   fst (start_begin demo_env (render after_call) (run demo_env [InvokeStart] after_call)) =
     run demo_env [InvokeStart] after_call"
  using second_invocation_is_turned_away [of after_call "render after_call" demo_env "[]"
    "[Settles (AwaitLeave 0) (Rejects ''gone''), Settles (AwaitDestroy 0) Resolves,
      FetchSettles 1 (Response room_response), Joined 1, Settles (AwaitJoin 1) Resolves]"]
  by (simp add: after_call_eq guard_def configured_def demo_env_def room_response_def run_defs)

text \<open>
  The claim as written fails: the first invocation waits for the request when its
  frame reports an error; the listener frees the lock and clears \<open>isConnecting\<close>, and a
  second invocation goes ahead while the first is still suspended. Two requests are
  sent, and where \<open>createFrame\<close> allows it two frames are made.
\<close>

theorem error_event_counterexample:
  "tasks (run lenient_env [InvokeStart, SdkError 0, InvokeStart] init) =
     [AwaitFetch 0, AwaitFetch 1] \<and>
   requests (calls (run lenient_env [InvokeStart, SdkError 0, InvokeStart] init)) = 2 \<and>
   frames_made (calls (run lenient_env [InvokeStart, SdkError 0, InvokeStart] init)) = 2 \<and>
   tasks (run demo_env [InvokeStart, SdkError 0, InvokeStart] init) = [AwaitFetch 0] \<and>
   requests (calls (run demo_env [InvokeStart, SdkError 0, InvokeStart] init)) = 2"
  by (simp add: init_def lenient_env_def demo_env_def run_defs)

subsection \<open>No credential\<close>

lemma handler_idle: "\<not> configured e \<Longrightarrow> idle s \<Longrightarrow> idle (handler e l s)"
  by (cases l) (auto simp: idle_def configured_def handler_defs split: option.splits)

lemma step_idle: "\<not> configured e \<Longrightarrow> idle s \<Longrightarrow> idle (step e l s)"
  using handler_idle [of e s l]
  by (auto simp: step_def commit_def idle_def)

lemma reachable_idle: "reachable e s \<Longrightarrow> \<not> configured e \<Longrightarrow> idle s"
proof (induction rule: reachable.induct)
  case reachable_init
  show ?case by (simp add: init_def idle_def)
next
  case (reachable_step s l)
  then show ?case using step_idle by blast
qed

text \<open>
  C2: with no credential configured, in every state the component can be in, a call of
  \<open>startConversation\<close> ends in the \<open>catch\<close> block before its first suspension point,
  with the configuration error: the error is logged and shown, no request has ever been
  sent, and afterwards \<open>isConnecting\<close> is false and the lock is free.
\<close>

theorem no_credential_fails_at_once:
  assumes "reachable e s" "\<not> configured e"
  shows "start_begin e (render s) s = (catch_block ConfigurationError s, None) \<and>
         startConversation e rs s = catch_block ConfigurationError s \<and>
         step e InvokeStart s = catch_block ConfigurationError s \<and>
         console (catch_block ConfigurationError s) = console s @ [ConfigurationError] \<and>
         requests (calls (catch_block ConfigurationError s)) = 0 \<and>
         \<not> isConnecting (catch_block ConfigurationError s) \<and>
         \<not> connectLock (catch_block ConfigurationError s)"
proof -
  from reachable_idle [OF assms] have i: "idle s" .
  from i assms(2)
  have sb: "start_begin e (render s) s = (catch_block ConfigurationError s, None)"
    by (auto simp: idle_def configured_def start_begin_def render_def catch_block_def
        split: option.splits)
  from sb have "startConversation e rs s = catch_block ConfigurationError s"
    by (simp add: startConversation_def settle_teardown_def settle_fetch_def settle_join_def)
  moreover from sb have "step e InvokeStart s = catch_block ConfigurationError s"
    by (simp add: step_def spawn_def commit_def)
  ultimately show ?thesis
    using sb i by (simp add: idle_def)
qed

text \<open>The widget is opened without a credential, and the conversation started again.\<close>

theorem no_credential_fails_at_once_witness:
  "\<not> configured no_token_env \<and>
   console (startConversation no_token_env all_fine (run no_token_env [ClickOpen] init)) =
     [ConfigurationError, ConfigurationError] \<and>
   calls (startConversation no_token_env all_fine (run no_token_env [ClickOpen] init)) =
     [Toast ''Error'' ''VITE_PIPECAT_TOKEN is not configured in .env file'',
      Toast ''Error'' ''VITE_PIPECAT_TOKEN is not configured in .env file'']"
  using no_credential_fails_at_once
    [OF reachable_run [OF reachable_init], of no_token_env "[ClickOpen]" all_fine]
  by (simp add: configured_def no_token_env_def init_def run_defs)

subsection \<open>A response without the room\<close>

lemma absent_field: "\<not> present d k \<Longrightarrow> get_field d k = Undefined"
  by (cases d) (auto simp: present_def get_field_def map_of_eq_None_iff [symmetric])

lemma check_room_absent:
  assumes "d \<noteq> Null" "d \<noteq> Undefined"
    and "(\<not> present d ''dailyRoom'' \<and> \<not> present d ''room_url'' \<and> \<not> present d ''roomUrl'') \<or>
         (\<not> present d ''dailyToken'' \<and> \<not> present d ''token'')"
  shows "check_room d = Inl ResponseShapeError"
  using assms
  by (cases d) (auto simp: check_room_def read_room_def or_js_def absent_field)

text \<open>
  What holds of the code: when an invocation has made its frame and gets a successful
  response whose parsed body is not \<open>null\<close> and has none of the keys \<open>dailyRoom\<close>,
  \<open>room_url\<close>, \<open>roomUrl\<close>, or neither of the keys \<open>dailyToken\<close>, \<open>token\<close>, it ends in the
  \<open>catch\<close> block with the error of line 202, \<open>join\<close> is not called and \<open>isConnected\<close>
  stays false. (A parsed body is never \<open>undefined\<close>.)
\<close>

lemma missing_room_fails:
  assumes "\<not> guard s" "configured e" "frame_is_made e s" "on_fetch rs = Response res"
    "ok res" "parsed res = Some d" "d \<noteq> Null" "d \<noteq> Undefined"
    "(\<not> present d ''dailyRoom'' \<and> \<not> present d ''room_url'' \<and> \<not> present d ''roomUrl'') \<or>
     (\<not> present d ''dailyToken'' \<and> \<not> present d ''token'')"
  shows "console (startConversation e rs s) \<noteq> [] \<and>
         last (console (startConversation e rs s)) = ResponseShapeError \<and>
         joins (calls (startConversation e rs s)) = joins (calls s) \<and>
         \<not> isConnected (startConversation e rs s)"
proof -
  from assms check_room_absent [of d]
  have "room_of (on_fetch rs) = Inl ResponseShapeError"
    by (simp add: room_of_def fetch_then_def)
  from failed_invocation [OF assms(1-3) this] assms(1) show ?thesis
    by (simp add: guard_def)
qed

text \<open>
  C3 does not hold of the code: the parsed body \<open>null\<close> has none of the keys, and the
  first invocation of a component that receives it ends with the TypeError of the
  property read on line 197, not with the error of line 202 for a missing room. The
  empty object in its place gives the error of line 202.
\<close>

theorem null_response_escapes_the_check:
  "\<not> present Null ''dailyRoom'' \<and> \<not> present Null ''room_url'' \<and>
   \<not> present Null ''roomUrl'' \<and>
   console (startConversation demo_env null_body init) = [TypeError] \<and>
   console (startConversation demo_env empty_object init) = [ResponseShapeError]"
  by (simp add: present_def startConversation_def settle_join_def settle_fetch_def
        settle_teardown_def demo_env_def null_body_def empty_object_def all_fine_def
        room_response_def init_def run_defs)

subsection \<open>endConversation\<close>

lemma endConversation_closes:
  "callFrame s = None \<or> r = Resolves \<Longrightarrow>
   \<not> isConnected (endConversation r s) \<and> \<not> isOpen (endConversation r s)"
  by (auto simp: endConversation_def end_begin_def end_after_leave_def end_finish_def
      split: option.splits)

lemma endConversation_rejected:
  "callFrame s = Some h \<Longrightarrow>
   endConversation (Rejects m) s = s\<lparr> calls := calls s @ [Leave h] \<rparr>"
  by (simp add: endConversation_def end_begin_def end_after_leave_def)

text \<open>
  C4 does not hold of the code: in a connected call with the frame stored, a \<open>leave\<close>
  that rejects ends \<open>endConversation\<close> before the two setters, and the component stays
  connected and open. (Without a stored frame, or when \<open>leave\<close> resolves, it ends
  disconnected and closed, as the first lemma above says.)
\<close>

theorem endConversation_rejected_leave:
  "callFrame in_call = Some 0 \<and>
   isConnected (endConversation (Rejects ''leave failed'') in_call) \<and>
   isOpen (endConversation (Rejects ''leave failed'') in_call)"
  by (simp add: in_call_eq endConversation_def end_begin_def end_after_leave_def)

subsection \<open>The timer\<close>

lemma handler_timer:
  "l \<noteq> Tick \<Longrightarrow> timer (handler e l s) = timer s \<and> ticking (handler e l s) = ticking s"
  by (cases l)
     (auto simp: handler_defs split: option.splits pending.splits outcome.splits sum.splits
        prod.splits)

lemma step_timer_ok: "timer_ok s \<Longrightarrow> timer_ok (step e l s)"
proof (cases "l = Tick")
  case True
  assume "timer_ok s"
  with True show ?thesis
    by (auto simp: step_def commit_def tick_def timer_ok_def split: if_splits)
next
  case False
  assume "timer_ok s"
  with handler_timer [OF False, of e s] show ?thesis
    by (auto simp: step_def commit_def timer_effect_def timer_ok_def split: if_splits)
qed

lemma reachable_timer_ok: "reachable e s \<Longrightarrow> timer_ok s"
proof (induction rule: reachable.induct)
  case reachable_init
  show ?case by (simp add: init_def timer_ok_def)
next
  case (reachable_step s l)
  then show ?case by (simp only: step_timer_ok)
qed

lemma disconnect_resets:
  "isConnected s \<Longrightarrow> \<not> isConnected (step e l s) \<Longrightarrow>
   timer (step e l s) = 0 \<and> \<not> ticking (step e l s)"
  by (auto simp: step_def commit_def timer_effect_def split: if_splits)

text \<open>
  C5: the joined listener sets \<open>isConnected\<close> and clears \<open>isConnecting\<close>. In a state the
  component can be in: when the event finds it not connected, the timer is 0 and the
  interval runs right after it; a tick while connected adds exactly 1; whatever makes
  \<open>isConnected\<close> false leaves the timer at 0 and the interval stopped; and while not
  connected the timer is 0 and a tick changes nothing.
\<close>

theorem timer_follows_connection:
  "isConnected (on_joined s) \<and> \<not> isConnecting (on_joined s) \<and>
   (reachable e s \<and> \<not> isConnected s \<and> f < created s \<longrightarrow>
      isConnected (step e (Joined f) s) \<and> \<not> isConnecting (step e (Joined f) s) \<and>
      timer (step e (Joined f) s) = 0 \<and> ticking (step e (Joined f) s)) \<and>
   (reachable e s \<and> isConnected s \<longrightarrow>
      timer (step e Tick s) = timer s + 1 \<and> isConnected (step e Tick s)) \<and>
   (isConnected s \<and> \<not> isConnected (step e l s) \<longrightarrow>
      timer (step e l s) = 0 \<and> \<not> ticking (step e l s)) \<and>
   (reachable e s \<and> \<not> isConnected s \<longrightarrow>
      timer s = 0 \<and> \<not> ticking s \<and> step e Tick s = s)"
proof -
  have a: "isConnected (on_joined s) \<and> \<not> isConnecting (on_joined s)"
    by (simp add: on_joined_def)
  have b: "isConnected (step e (Joined f) s) \<and> \<not> isConnecting (step e (Joined f) s) \<and>
      timer (step e (Joined f) s) = 0 \<and> ticking (step e (Joined f) s)"
    if "reachable e s" "\<not> isConnected s" "f < created s"
    using reachable_timer_ok [OF that(1)] that(2,3)
    by (simp add: step_def commit_def timer_effect_def on_joined_def timer_ok_def)
  have c: "timer (step e Tick s) = timer s + 1 \<and> isConnected (step e Tick s)"
    if "reachable e s" "isConnected s"
    using reachable_timer_ok [OF that(1)] that(2)
    by (simp add: step_def commit_def tick_def timer_ok_def)
  have d: "timer s = 0 \<and> \<not> ticking s \<and> step e Tick s = s"
    if "reachable e s" "\<not> isConnected s"
    using reachable_timer_ok [OF that(1)] that(2)
    by (simp add: step_def commit_def tick_def timer_ok_def)
  from a b c d disconnect_resets [of s e l] show ?thesis
    by blast
qed

text \<open>
  The join is under way and the joined event arrives: the timer starts at 0. In the
  call two ticks make it 2, and the left event puts it back to 0.
\<close>

theorem timer_follows_connection_witness:
  "\<not> isConnected joining \<and> 0 < created joining \<and>
   isConnected (step demo_env (Joined 0) joining) \<and>
   timer (step demo_env (Joined 0) joining) = 0 \<and>
   isConnected in_call \<and>
   timer (step demo_env Tick in_call) = 1 \<and>
   timer (step demo_env Tick (step demo_env Tick in_call)) = 2 \<and>
   \<not> isConnected (step demo_env (Left 0) (step demo_env Tick in_call)) \<and>
   timer (step demo_env (Left 0) (step demo_env Tick in_call)) = 0"
  using timer_follows_connection [of joining demo_env 0 Tick]
    timer_follows_connection [of in_call demo_env 0 Tick]
    timer_follows_connection [of "step demo_env Tick in_call" demo_env 0 "Left 0"]
    reachable_joining reachable_in_call reachable_step [OF reachable_in_call, of Tick]
  by (simp add: joining_eq in_call_eq step_def commit_def tick_def on_joined_def on_left_def
        timer_effect_def)

subsection \<open>Connecting and connected exclude each other\<close>

lemma handler_exclusive:
  "\<not> (isConnecting s \<and> isConnected s) \<Longrightarrow>
   \<not> (isConnecting (handler e l s) \<and> isConnected (handler e l s))"
  by (cases l)
     (auto simp: handler_defs split: option.splits pending.splits outcome.splits sum.splits
        prod.splits)

text \<open>
  C6: in every state the component can reach by calls of its functions, events of its
  frames, promises settling and ticks, \<open>isConnecting\<close> and \<open>isConnected\<close> are not both
  true.
\<close>

theorem connecting_excludes_connected:
  "reachable e s \<Longrightarrow> \<not> (isConnecting s \<and> isConnected s)"
proof (induction rule: reachable.induct)
  case reachable_init
  show ?case by (simp add: init_def)
next
  case (reachable_step s l)
  from handler_exclusive [OF reachable_step.IH, of e l] show ?case
    by (simp add: step_def)
qed

text \<open>While the join is under way the component is connecting and not connected.\<close>

theorem connecting_excludes_connected_witness:
  "isConnecting joining \<and> \<not> isConnected joining"
  using connecting_excludes_connected [OF reachable_joining]
  by (simp add: joining_eq)

subsection \<open>Frames made and frames destroyed\<close>

text \<open>
  What the teardown does when a frame is stored: the stored frame is left and
  destroyed before \<open>createFrame\<close> is called, whatever the two promises do.
\<close>

lemma teardown_before_create:
  assumes "\<not> guard s" "VITE_PIPECAT_TOKEN e = Some k" "k \<noteq> []" "callFrame s = Some old"
  shows "\<exists>c rest. calls (startConversation e rs s) =
           calls s @ [Fetch (endpoint e) (authHeader k), Leave old, Destroy old] @ c # rest \<and>
           (is_create c \<or> is_throw c)"
proof (cases "createFrame e (before_create e s)")
  case Resolves
  then have made: "frame_is_made e s"
    by (simp add: frame_is_made_def)
  from prelude_made [OF assms(1-3) made, of rs] obtain p where
    p: "settle_teardown e rs (start_begin e (render s) s) = (p, Some (AwaitFetch (created s)))"
       "calls p = before_create e s @ [CreateFrame (created s)]"
    by blast
  show ?thesis
    using after_prelude [OF p(1)] p(2) assms(2,4)
    by (auto simp: before_create_def teardown_calls_def split: sum.splits outcome.splits)
next
  case (Rejects m)
  from prelude_thrown [OF assms(1-3) Rejects, of rs] assms(2,4) show ?thesis
    by (auto simp: before_create_def teardown_calls_def)
qed

lemma live_append: "live (xs @ ys) = foldl live_after (live xs) ys"
  by (simp add: live_def)

text \<open>
  C7 does not hold of the code: the frame of an invocation that fails is neither
  stored nor destroyed. The first invocation of a component makes frame 0 and gets a
  401: nothing is stored, and frame 0 stays. The next invocation, whatever its
  promises do, finds no stored frame, calls neither \<open>leave\<close> nor \<open>destroy\<close> and calls
  \<open>createFrame\<close> with frame 0 still there. Where \<open>createFrame\<close> makes the frame there
  are two frames; where it throws, the invocation ends in the \<open>catch\<close> block without a
  join.
\<close>

theorem failed_invocation_leaves_its_frame:
  assumes "VITE_PIPECAT_TOKEN e = Some k" "k \<noteq> []"
    "createFrame e [Fetch (endpoint e) (authHeader k)] = Resolves"
  shows "callFrame (startConversation e unauthorized init) = None \<and>
         live (calls (startConversation e unauthorized init)) = [0] \<and>
         Leave 0 \<notin> set (calls (startConversation e rs (startConversation e unauthorized init))) \<and>
         Destroy 0 \<notin> set (calls (startConversation e rs (startConversation e unauthorized init))) \<and>
         (createFrame e (before_create e (startConversation e unauthorized init)) = Resolves \<longrightarrow>
            live (calls (startConversation e rs (startConversation e unauthorized init))) =
              [0, 1]) \<and>
         (createFrame e (before_create e (startConversation e unauthorized init)) = Rejects m \<longrightarrow>
            live (calls (startConversation e rs (startConversation e unauthorized init))) = [0] \<and>
            last (console (startConversation e rs (startConversation e unauthorized init))) =
              External m \<and>
            joins (calls (startConversation e rs (startConversation e unauthorized init))) = [])"
proof -
  let ?F = "Fetch (endpoint e) (authHeader k)"
  let ?T = "Toast ''Error''
    (if message (RequestError 401 ''Unauthorized'' []) = [] then ''Could not start conversation''
     else message (RequestError 401 ''Unauthorized'' []))"
  let ?s1 = "startConversation e unauthorized init"
  have s1: "?s1 = init\<lparr> calls := [?F, CreateFrame 0, ?T],
                        console := [RequestError 401 ''Unauthorized'' []], created := 1 \<rparr>"
    using assms
    by (simp add: startConversation_def settle_join_def settle_fetch_def settle_teardown_def
          start_begin_def render_def create_frame_def after_fetch_def room_of_def
          fetch_then_def catch_block_def unauthorized_def all_fine_def room_response_def
          init_def)
  have go: "\<not> guard ?s1" and cf: "callFrame ?s1 = None" and cr: "created ?s1 = 1"
    and cs: "calls ?s1 = [?F, CreateFrame 0, ?T]"
    unfolding s1 by (simp_all add: guard_def init_def)
  have bc: "before_create e ?s1 = [?F, CreateFrame 0, ?T, ?F]"
    using assms(1) by (simp add: before_create_def cs cf teardown_calls_def)
  have l1: "live (calls ?s1) = [0]"
    by (simp add: cs live_def)
  have made: "Leave 0 \<notin> set (calls (startConversation e rs ?s1)) \<and>
      Destroy 0 \<notin> set (calls (startConversation e rs ?s1)) \<and>
      live (calls (startConversation e rs ?s1)) = [0, 1]"
    if r: "createFrame e (before_create e ?s1) = Resolves"
  proof -
    from r have fm: "frame_is_made e ?s1"
      by (simp add: frame_is_made_def)
    from prelude_made [OF go assms(1,2) fm, of rs] obtain p where
      p: "settle_teardown e rs (start_begin e (render ?s1) ?s1) =
            (p, Some (AwaitFetch (created ?s1)))"
         "calls p = before_create e ?s1 @ [CreateFrame (created ?s1)]"
      by blast
    from after_prelude [OF p(1)] p(2) show ?thesis
      by (auto simp: bc cr live_def split: sum.splits outcome.splits)
  qed
  have thrown: "Leave 0 \<notin> set (calls (startConversation e rs ?s1)) \<and>
      Destroy 0 \<notin> set (calls (startConversation e rs ?s1)) \<and>
      live (calls (startConversation e rs ?s1)) = [0] \<and>
      last (console (startConversation e rs ?s1)) = External m' \<and>
      joins (calls (startConversation e rs ?s1)) = []"
    if r: "createFrame e (before_create e ?s1) = Rejects m'" for m'
  proof -
    from prelude_thrown [OF go assms(1,2) r, of rs] obtain p where
      p: "startConversation e rs ?s1 = catch_block (External m') p"
         "calls p = before_create e ?s1 @ [CreateFrameThrows m']"
      by blast
    then show ?thesis
      by (simp add: bc live_def)
  qed
  show ?thesis
  proof (cases "createFrame e (before_create e ?s1)")
    case Resolves
    with made cf l1 show ?thesis by simp
  next
    case (Rejects m')
    with thrown [OF Rejects] cf l1 show ?thesis by simp
  qed
qed

text \<open>
  With a \<open>createFrame\<close> that refuses a second frame, the second invocation fails with
  its message, and frame 0 is still there.
\<close>

theorem failed_invocation_leaves_its_frame_witness:
  "live (calls (startConversation demo_env all_fine
      (startConversation demo_env unauthorized init))) = [0] \<and>
   last (console (startConversation demo_env all_fine
      (startConversation demo_env unauthorized init))) =
     External ''Duplicate DailyIframe instances are not allowed'' \<and>
   Destroy 0 \<notin> set (calls (startConversation demo_env all_fine
      (startConversation demo_env unauthorized init)))"
proof -
  have s1: "calls (startConversation demo_env unauthorized init) =
      [Fetch ''https://api.pipecat.daily.co/v1/public/webagent/start'' ''Bearer abc'',
       CreateFrame 0,
       Toast ''Error'' (message (RequestError 401 ''Unauthorized'' []))] \<and>
      callFrame (startConversation demo_env unauthorized init) = None"
    by (simp add: startConversation_def settle_join_def settle_fetch_def settle_teardown_def
          demo_env_def unauthorized_def all_fine_def room_response_def init_def run_defs)
  have r: "createFrame demo_env (before_create demo_env (startConversation demo_env unauthorized init)) =
      Rejects ''Duplicate DailyIframe instances are not allowed''"
    by (simp add: s1 before_create_def teardown_calls_def)
       (simp add: demo_env_def one_frame_def live_def)
  from failed_invocation_leaves_its_frame
    [of demo_env "''abc''" all_fine "''Duplicate DailyIframe instances are not allowed''"] r
  show ?thesis
    by (simp add: demo_env_def one_frame_def live_def endpoint_def)
qed

subsection \<open>The Authorization header\<close>

text \<open>
  C8, as amended: for every credential the header is the credential itself when it
  starts with the letters of \<open>Bearer\<close> in any case followed by a space character, and
  \<open>Bearer\<close>, a blank and the credential otherwise; either way the header starts with
  those letters in some case followed by a space character.
\<close>

theorem authHeader_bearer_prefix:
  "(matches_bearer k \<longrightarrow> authHeader k = k) \<and>
   (\<not> matches_bearer k \<longrightarrow> authHeader k = ''Bearer '' @ k) \<and>
   matches_bearer (authHeader k)"
  by (simp add: authHeader_def is_space_def)

text \<open>An upper-case prefix is kept, a bare token gets the prefix.\<close>

theorem authHeader_bearer_prefix_witness:
  "authHeader ''BEARER xyz'' = ''BEARER xyz'' \<and> authHeader ''xyz'' = ''Bearer xyz''"
  using authHeader_bearer_prefix [of "''BEARER xyz''"] authHeader_bearer_prefix [of "''xyz''"]
  by (simp add: is_space_def)

text \<open>
  The claim as written fails: a credential with a lower-case prefix is sent as it is,
  and the header then does not begin with \<open>Bearer\<close> and a blank.
\<close>

theorem authHeader_literal_prefix_counterexample:
  "authHeader ''bearer abc'' = ''bearer abc'' \<and> \<not> prefix ''Bearer '' (authHeader ''bearer abc'')"
  by (simp add: authHeader_def is_space_def)

subsection \<open>The transcript is append-only\<close>

lemma append_all_transcript:
  "transcript (append_all es s) = transcript s @ map entry es"
  unfolding append_all_def
  by (induction es arbitrary: s) (auto simp: addToTranscript_def entry_def)

lemma transcript_handler: "prefix (transcript s) (transcript (handler e l s))"
  by (cases l)
     (auto simp: spawn_def start_begin_def click_open_def create_frame_def catch_block_def
        end_begin_def end_finish_def toggleMute_def handleSendMessage_def mock_reply_def
        addToTranscript_def tick_def on_joined_def on_left_def on_error_def
        on_participant_joined_def on_active_speaker_change_def resume_def after_leave_def
        after_destroy_def after_join_def after_fetch_def end_after_leave_def swallow_def Let_def
        split: option.splits pending.splits outcome.splits sum.splits prod.splits)

text \<open>
  C9: appending entries with \<open>addToTranscript\<close> puts them behind the entries already
  there, in the order they were appended, each with the id, speaker, text and time it
  was appended with, so from an empty transcript \<open>N\<close> appends give \<open>N\<close> entries with
  their speakers and texts in insertion order; and whatever happens next, the
  transcript before is a prefix of the transcript after: nothing is removed or changed.
\<close>

theorem transcript_append_only:
  "transcript (append_all es s) = transcript s @ map entry es \<and>
   (transcript s = [] \<longrightarrow>
      length (transcript (append_all es s)) = length es \<and>
      map (\<lambda>m. (m_speaker m, m_text m)) (transcript (append_all es s)) =
        map (\<lambda>(rid, now, sp, txt). (sp, txt)) es) \<and>
   prefix (transcript s) (transcript (step e l s))"
proof -
  have eq: "transcript (append_all es s) = transcript s @ map entry es"
    by (rule append_all_transcript)
  have "map (\<lambda>m. (m_speaker m, m_text m)) (map entry es) =
        map (\<lambda>(rid, now, sp, txt). (sp, txt)) es"
    by (induction es) (auto simp: entry_def)
  with eq show ?thesis
    by (simp add: step_def transcript_handler)
qed

text \<open>Two entries appended to the empty transcript of the initial state.\<close>

theorem transcript_append_only_witness:
  "transcript init = [] \<and>
   map (\<lambda>m. (m_speaker m, m_text m))
     (transcript (append_all [(''a1'', 5, Ai, ''hello''), (''b2'', 9, User, ''hi'')] init)) =
     [(Ai, ''hello''), (User, ''hi'')] \<and>
   length (transcript (append_all [(''a1'', 5, Ai, ''hello''), (''b2'', 9, User, ''hi'')] init)) = 2"
  using transcript_append_only
    [of "[(''a1'', 5, Ai, ''hello''), (''b2'', 9, User, ''hi'')]" init]
  by (simp add: init_def entry_def)

subsection \<open>The stored frame after an invocation\<close>

text \<open>
  C10, as amended: an invocation that the guard turns away changes nothing. One that
  goes ahead leaves the stored frame as it was when no credential is configured; with
  a credential it stores the new frame exactly when the frame was made, the room was
  obtained and the join resolved, and otherwise (\<open>createFrame\<close>, the request, the shape
  check or the join failed) the stored frame is empty afterwards, whatever it was
  before, because the teardown cleared it.
\<close>

theorem callFrame_after_invocation:
  "(guard s \<longrightarrow> startConversation e rs s = s) \<and>
   (\<not> guard s \<longrightarrow>
      callFrame (startConversation e rs s) =
        (if \<not> configured e then callFrame s
         else if frame_is_made e s \<and> join_succeeds rs then Some (created s) else None))"
proof (intro conjI impI)
  assume "guard s"
  then show "startConversation e rs s = s"
    by (simp add: guard_render startConversation_def start_begin_def settle_teardown_def
          settle_fetch_def settle_join_def)
next
  assume go: "\<not> guard s"
  show "callFrame (startConversation e rs s) =
        (if \<not> configured e then callFrame s
         else if frame_is_made e s \<and> join_succeeds rs then Some (created s) else None)"
  proof (cases "configured e")
    case False
    with go show ?thesis
      by (auto simp: guard_render configured_def startConversation_def start_begin_def
            settle_teardown_def settle_fetch_def settle_join_def split: option.splits)
  next
    case True
    then obtain k where k: "VITE_PIPECAT_TOKEN e = Some k" "k \<noteq> []"
      by (auto simp: configured_def split: option.splits)
    show ?thesis
    proof (cases "createFrame e (before_create e s)")
      case Resolves
      then have made: "frame_is_made e s"
        by (simp add: frame_is_made_def)
      from prelude_made [OF go k made, of rs] obtain p where
        p: "settle_teardown e rs (start_begin e (render s) s) =
              (p, Some (AwaitFetch (created s)))"
           "callFrame p = None"
        by blast
      from after_prelude [OF p(1)] p(2) True made show ?thesis
        by (auto simp: join_succeeds_def split: sum.splits outcome.splits)
    next
      case (Rejects m)
      from prelude_thrown [OF go k Rejects, of rs] Rejects True show ?thesis
        by (auto simp: frame_is_made_def)
    qed
  qed
qed

text \<open>
  After a call, with frame 0 stored: a good invocation stores the new frame 1, one
  without a credential keeps frame 0.
\<close>

theorem callFrame_after_invocation_witness:
  "\<not> guard after_call \<and> frame_is_made demo_env after_call \<and>
   callFrame (startConversation demo_env all_fine after_call) = Some 1 \<and>
   callFrame (startConversation no_token_env all_fine after_call) = Some 0"
  using callFrame_after_invocation [of after_call demo_env all_fine]
    callFrame_after_invocation [of after_call no_token_env all_fine]
  by (simp add: after_call_eq guard_def configured_def demo_env_def no_token_env_def
        join_succeeds_def all_fine_def room_response_def room_of_def fetch_then_def
        check_room_def read_room_def get_field_def or_js_def frame_is_made_def
        before_create_def teardown_calls_def one_frame_def live_def)

text \<open>
  The claim as written fails: after a call, frame 0 is stored; the next invocation gets
  a 401 from the endpoint and leaves the stored frame empty, not unchanged.
\<close>

theorem callFrame_unchanged_counterexample:
  "callFrame after_call = Some 0 \<and>
   console (startConversation demo_env unauthorized after_call) =
     [RequestError 401 ''Unauthorized'' []] \<and>
   callFrame (startConversation demo_env unauthorized after_call) = None"
  by (simp add: after_call_eq startConversation_def settle_join_def settle_fetch_def
        settle_teardown_def demo_env_def unauthorized_def all_fine_def room_response_def
        run_defs)


end
